theory Spec2Isabelle
  imports Main "HOL-Library.AList" "HOL-Library.Sublist"
begin

section \<open>The TOML file editor \<open>toml_file.py\<close>\<close>

text \<open>
  A shallow embedding of \<^verbatim>\<open>plugins/modules/files/toml_file.py\<close>: the function
  \<^verbatim>\<open>do_toml\<close> (lines 132-204) and its caller \<^verbatim>\<open>run_module\<close> (lines 206-245).
  Python objects are values of one datatype, dictionaries are association lists in
  insertion order, every exception and every \<^verbatim>\<open>fail_json\<close> is the left side of a sum,
  and the file system is an explicit state.
\<close>

subsection \<open>Python values\<close>

text \<open>
  The values a parsed TOML document holds (strings, integers, booleans, floats, dates,
  arrays, tables), and Python's \<^verbatim>\<open>None\<close>, which \<^verbatim>\<open>do_toml\<close> stores itself at line 172.
  Floats and dates are kept as their text: the code never computes with them.
\<close>

datatype pyval =
    VNone
  | VStr string
  | VInt int
  | VBool bool
  | VFloat string
  | VDatetime string
  | VList "pyval list"
  | VDict "(string \<times> pyval) list"

type_synonym pydict = "(string \<times> pyval) list"

datatype error =
    FailJson string
  | TypeError
  | AttributeError
  | KeyError
  | MoveFailed

text \<open>Sequencing of steps that may raise.\<close>

definition bind_err :: "error + 'a \<Rightarrow> ('a \<Rightarrow> error + 'b) \<Rightarrow> error + 'b" where
  "bind_err m f = (case m of Inl e \<Rightarrow> Inl e | Inr x \<Rightarrow> f x)"

text \<open>
  An optional string parameter of the module (\<^verbatim>\<open>section\<close>, \<^verbatim>\<open>key\<close>, \<^verbatim>\<open>value\<close>): \<^verbatim>\<open>None\<close>
  when omitted. \<^verbatim>\<open>if x:\<close> holds for a string that is not empty.
\<close>

fun truthy :: "string option \<Rightarrow> bool" where
  "truthy None = False"
| "truthy (Some s) = (s \<noteq> [])"

fun of_param :: "string option \<Rightarrow> pyval" where
  "of_param None = VNone"
| "of_param (Some s) = VStr s"

text \<open>What \<^verbatim>\<open>"{}".format(x)\<close> prints for an optional string.\<close>

fun format_param :: "string option \<Rightarrow> string" where
  "format_param None = ''None''"
| "format_param (Some s) = s"

text \<open>\<^verbatim>\<open>' '.join(msg)\<close>\<close>

fun join_space :: "string list \<Rightarrow> string" where
  "join_space [] = []"
| "join_space [x] = x"
| "join_space (x # y # ys) = x @ '' '' @ join_space (y # ys)"

subsection \<open>The operations \<^verbatim>\<open>do_toml\<close> applies to its working context\<close>

text \<open>\<^verbatim>\<open>sub in s\<close> on two strings: \<^verbatim>\<open>sub\<close> occurs in \<^verbatim>\<open>s\<close> as a contiguous run.\<close>

fun str_contains :: "string \<Rightarrow> string \<Rightarrow> bool" where
  "str_contains [] sub = (sub = [])"
| "str_contains (c # cs) sub = (prefix sub (c # cs) \<or> str_contains cs sub)"

text \<open>
  \<^verbatim>\<open>key in obj\<close> for a string \<^verbatim>\<open>key\<close>: membership among the keys of a dictionary,
  among the elements of a list, substring test on a string; any other object is not
  iterable.
\<close>

fun py_in :: "string \<Rightarrow> pyval \<Rightarrow> error + bool" where
  "py_in key (VDict d) = Inr (map_of d key \<noteq> None)"
| "py_in key (VStr s) = Inr (str_contains s key)"
| "py_in key (VList xs) = Inr (List.member xs (VStr key))"
| "py_in key v = Inl TypeError"

text \<open>\<^verbatim>\<open>obj[key]\<close> for a string \<^verbatim>\<open>key\<close>: only a dictionary takes a string subscript.\<close>

fun py_getitem :: "string \<Rightarrow> pyval \<Rightarrow> error + pyval" where
  "py_getitem key (VDict d) = (case map_of d key of None \<Rightarrow> Inl KeyError | Some v \<Rightarrow> Inr v)"
| "py_getitem key v = Inl TypeError"

text \<open>
  \<^verbatim>\<open>obj[key] = x\<close>: a dictionary replaces the value of an existing key in place and
  appends a new key; the result is the object after the assignment.
\<close>

fun py_setitem :: "string \<Rightarrow> pyval \<Rightarrow> pyval \<Rightarrow> error + pyval" where
  "py_setitem key x (VDict d) = Inr (VDict (AList.update key x d))"
| "py_setitem key x v = Inl TypeError"

text \<open>
  \<^verbatim>\<open>obj.pop(key)\<close>: a dictionary drops the key, \<^verbatim>\<open>list.pop\<close> wants an integer, and no
  other value has a \<^verbatim>\<open>pop\<close> attribute.
\<close>

fun py_pop :: "string \<Rightarrow> pyval \<Rightarrow> error + pyval" where
  "py_pop key (VDict d) =
     (if map_of d key = None then Inl KeyError else Inr (VDict (AList.delete key d)))"
| "py_pop key (VList xs) = Inl TypeError"
| "py_pop key v = Inl AttributeError"

subsection \<open>The local variables of \<^verbatim>\<open>do_toml\<close>\<close>

text \<open>
  \<^verbatim>\<open>working_context\<close> is \<^verbatim>\<open>None\<close>, the document \<^verbatim>\<open>content\<close> itself, or the object
  \<^verbatim>\<open>content[section]\<close>. The last two are references into the document: a mutation
  through them is a mutation of \<^verbatim>\<open>content\<close>. The model keeps where the reference
  points and writes every mutation back there.
\<close>

datatype scope = NoContext | TopLevel | InSection string

record locals =
  content :: pydict
  working_context :: scope
  changed :: bool
  msg :: "string list"

text \<open>The object \<^verbatim>\<open>working_context\<close> refers to.\<close>

fun context_value :: "pydict \<Rightarrow> scope \<Rightarrow> error + pyval" where
  "context_value c NoContext = Inr VNone"
| "context_value c TopLevel = Inr (VDict c)"
| "context_value c (InSection s) =
     (case map_of c s of None \<Rightarrow> Inl KeyError | Some v \<Rightarrow> Inr v)"

text \<open>The document after the object \<^verbatim>\<open>working_context\<close> refers to has become \<^verbatim>\<open>v\<close>.\<close>

fun context_store :: "pydict \<Rightarrow> scope \<Rightarrow> pyval \<Rightarrow> pydict" where
  "context_store c TopLevel (VDict d) = d"
| "context_store c (InSection s) v = AList.update s v c"
| "context_store c ctx v = c"

subsection \<open>Lines 146-165: find the section to work on\<close>

text \<open>The body of \<^verbatim>\<open>if section:\<close> (lines 148-163), for the section name \<open>s\<close>.\<close>

definition in_section :: "string \<Rightarrow> string option \<Rightarrow> string \<Rightarrow> locals \<Rightarrow> locals" where
  "in_section s key state l =
     (let l1 = (if state = ''present'' then
                  (if map_of (content l) s = None then
                     l\<lparr>content := AList.update s (VDict []) (content l),
                       working_context := InSection s,
                       changed := True,
                       msg := msg l @ [''Added section '' @ s @ ''.'']\<rparr>
                   else l\<lparr>working_context := InSection s\<rparr>)
                else l)
      in (if state = ''absent'' then
            (if truthy key then
               (if map_of (content l1) s \<noteq> None
                then l1\<lparr>working_context := InSection s\<rparr> else l1)
             else if map_of (content l1) s \<noteq> None then
               l1\<lparr>content := AList.delete s (content l1),
                  changed := True,
                  msg := msg l1 @ [''Removed section '' @ s @ ''.'']\<rparr>
             else l1)
          else l1))"

definition find_section :: "string option \<Rightarrow> string option \<Rightarrow> string \<Rightarrow> locals \<Rightarrow> locals" where
  "find_section section key state l =
     (case section of
        None \<Rightarrow> l\<lparr>working_context := TopLevel\<rparr>
      | Some s \<Rightarrow>
          if s \<noteq> [] then in_section s key state l
          else l\<lparr>working_context := TopLevel\<rparr>)"

subsection \<open>Lines 167-186: add or remove the key in the working context\<close>

text \<open>
  The branch \<^verbatim>\<open>state == 'present'\<close> (lines 171-176) on the object \<open>wc\<close>: the object
  afterwards, and whether lines 174-176 ran.
\<close>

definition key_present :: "string \<Rightarrow> string option \<Rightarrow> pyval \<Rightarrow> error + (pyval \<times> bool)" where
  "key_present k val wc =
     bind_err (py_in k wc) (\<lambda>found.
     bind_err (if \<not> found then py_setitem k VNone wc else Inr wc) (\<lambda>wc1.
     bind_err (py_getitem k wc1) (\<lambda>cur.
       if cur \<noteq> of_param val
       then bind_err (py_setitem k (of_param val) wc1) (\<lambda>wc2. Inr (wc2, True))
       else Inr (wc1, False))))"

text \<open>
  The branch \<^verbatim>\<open>state == 'absent'\<close> (lines 178-186): the object afterwards, and whether
  the key was popped.
\<close>

definition key_absent :: "string \<Rightarrow> string option \<Rightarrow> pyval \<Rightarrow> error + (pyval \<times> bool)" where
  "key_absent k val wc =
     bind_err (py_in k wc) (\<lambda>found.
       if found then
         (if \<not> truthy val then
            bind_err (py_pop k wc) (\<lambda>wc1. Inr (wc1, True))
          else
            bind_err (py_getitem k wc) (\<lambda>cur.
              if cur = of_param val
              then bind_err (py_pop k wc) (\<lambda>wc1. Inr (wc1, True))
              else Inr (wc, False)))
       else Inr (wc, False))"

text \<open>The body of \<^verbatim>\<open>if key:\<close> (lines 170-186), for the key \<open>k\<close>.\<close>

definition with_key :: "string \<Rightarrow> string option \<Rightarrow> string \<Rightarrow> locals \<Rightarrow> error + locals" where
  "with_key k val state l =
     (if state = ''present'' then
        bind_err (context_value (content l) (working_context l)) (\<lambda>wc.
        bind_err (key_present k val wc) (\<lambda>(wc', ch).
          Inr (if ch
               then l\<lparr>content := context_store (content l) (working_context l) wc',
                      changed := True,
                      msg := msg l @ [''Added key '' @ k @ ''='' @ format_param val @ ''.'']\<rparr>
               else l\<lparr>content := context_store (content l) (working_context l) wc'\<rparr>)))
      else if state = ''absent'' then
        bind_err (context_value (content l) (working_context l)) (\<lambda>wc.
        bind_err (key_absent k val wc) (\<lambda>(wc', ch).
          Inr (if ch
               then l\<lparr>content := context_store (content l) (working_context l) wc',
                      changed := True,
                      msg := msg l @ [''Removed key '' @ k @ ''.'']\<rparr>
               else l)))
      else Inr l)"

definition apply_key :: "string option \<Rightarrow> string option \<Rightarrow> string \<Rightarrow> locals \<Rightarrow> error + locals" where
  "apply_key key val state l =
     (case key of
        None \<Rightarrow> Inr l
      | Some k \<Rightarrow> if k \<noteq> [] then with_key k val state l else Inr l)"

text \<open>
  Lines 133-136 and 146-186 together, from the loaded document: the local variables
  when line 188 is reached.
\<close>

definition initial_locals :: "pydict \<Rightarrow> locals" where
  "initial_locals c =
     \<lparr>content = c, working_context = NoContext, changed = False, msg = []\<rparr>"

definition reconcile ::
  "string option \<Rightarrow> string option \<Rightarrow> string option \<Rightarrow> string \<Rightarrow> pydict \<Rightarrow> error + locals" where
  "reconcile section key val state c =
     apply_key key val state (find_section section key state (initial_locals c))"

subsection \<open>The file system and the libraries \<^verbatim>\<open>do_toml\<close> calls\<close>

text \<open>
  The files are a map from paths to their text, and every call that creates, writes
  or renames a file is recorded in order.
\<close>

datatype event =
    Mkstemp string
  | Dump string string
  | AtomicMove string string

record world =
  files :: "string \<Rightarrow> string option"
  trace :: "event list"

text \<open>
  What the run does not decide itself: the flag \<^verbatim>\<open>module.check_mode\<close>; the TOML library
  (\<^verbatim>\<open>toml.load\<close> of a file's text, \<open>None\<close> for \<^verbatim>\<open>TomlDecodeError\<close>, and the text
  \<^verbatim>\<open>toml.dump\<close> writes); the name \<^verbatim>\<open>tempfile.mkstemp\<close> returns, \<open>None\<close> when it
  raises \<^verbatim>\<open>IOError\<close>; and whether \<^verbatim>\<open>module.atomic_move\<close> succeeds. A path in
  \<open>files\<close> names a regular file that can be read.
\<close>

record env =
  check_mode :: bool
  toml_load :: "string \<Rightarrow> pydict option"
  toml_dumps :: "pydict \<Rightarrow> string"
  mkstemp :: "string option"
  atomic_move_ok :: bool

text \<open>
  Lines 137-144. A path that does not exist gives \<^verbatim>\<open>toml.loads("")\<close>, the empty
  document; the parameter \<^verbatim>\<open>create\<close> is not read.
\<close>

definition load_content :: "env \<Rightarrow> world \<Rightarrow> string \<Rightarrow> error + pydict" where
  "load_content e w path =
     (case files w path of
        Some text \<Rightarrow>
          (case toml_load e text of
             Some c \<Rightarrow> Inr c
           | None \<Rightarrow> Inl (FailJson (''Could not decode file at '' @ path @ '' as TOML'')))
      | None \<Rightarrow> Inr [])"

text \<open>
  Lines 188-202. An \<^verbatim>\<open>IOError\<close> anywhere in lines 190-193 ends the run in the
  \<^verbatim>\<open>fail_json\<close> of line 195, and one in \<^verbatim>\<open>atomic_move\<close> ends it in the handler of
  lines 199-202. A rename replaces the target and removes the temporary name.
\<close>

definition persist :: "env \<Rightarrow> world \<Rightarrow> string \<Rightarrow> locals \<Rightarrow> error + world" where
  "persist e w path l =
     (if changed l \<and> \<not> check_mode e then
        (case mkstemp e of
           None \<Rightarrow> Inl (FailJson ''Unable to create temporary file %s'')
         | Some tmpfile \<Rightarrow>
             if atomic_move_ok e then
               Inr (w\<lparr>files := ((files w)(tmpfile := None))(path \<mapsto> toml_dumps e (content l)),
                      trace := trace w @ [Mkstemp tmpfile,
                                          Dump tmpfile (toml_dumps e (content l)),
                                          AtomicMove tmpfile path]\<rparr>)
             else Inl MoveFailed)
      else Inr w)"

text \<open>
  Line 204: the dictionary \<^verbatim>\<open>do_toml\<close> returns. Line 203 prints the flag to the
  standard output and changes nothing else.
\<close>

definition result_of :: "locals \<Rightarrow> pydict" where
  "result_of l =
     [(''changed'', VBool (changed l)),
      (''origin_message'', VDict [(''before'', VStr []), (''after'', VStr [])]),
      (''msg'', VStr (join_space (msg l)))]"

definition do_toml ::
  "env \<Rightarrow> world \<Rightarrow> string \<Rightarrow> string option \<Rightarrow> string option \<Rightarrow> string option \<Rightarrow> string
     \<Rightarrow> bool \<Rightarrow> error + (world \<times> pydict)" where
  "do_toml e w path section key val state create =
     bind_err (load_content e w path) (\<lambda>c.
     bind_err (reconcile section key val state c) (\<lambda>l.
     bind_err (persist e w path l) (\<lambda>w'.
       Inr (w', result_of l))))"

subsection \<open>\<^verbatim>\<open>run_module\<close>\<close>

record params =
  p_path :: string
  p_section :: "string option"
  p_key :: "string option"
  p_value :: "string option"
  p_state :: string
  p_create :: bool

text \<open>Lines 208-212: the result \<^verbatim>\<open>run_module\<close> starts from.\<close>

definition initial_result :: pydict where
  "initial_result =
     [(''changed'', VBool False), (''original_message'', VStr []), (''message'', VStr [])]"

text \<open>
  Lines 227-245: what \<^verbatim>\<open>exit_json\<close> hands to the host, and the file system then. In
  check mode line 235 exits with the initial result before \<^verbatim>\<open>do_toml\<close> is called.
  Lines 239-241 normalise the mode and the owner of the file, which the model of the
  file system does not hold, and discard what \<^verbatim>\<open>set_fs_attributes_if_different\<close>
  returns.
\<close>

definition run_module :: "env \<Rightarrow> world \<Rightarrow> params \<Rightarrow> error + (world \<times> pydict)" where
  "run_module e w p =
     (if check_mode e then Inr (w, initial_result)
      else do_toml e w (p_path p) (p_section p) (p_key p) (p_value p) (p_state p) (p_create p))"

section \<open>Auxiliary facts\<close>

lemmas reconcile_defs = reconcile_def apply_key_def find_section_def in_section_def with_key_def
  key_present_def key_absent_def initial_locals_def bind_err_def


lemma map_of_update_same: "map_of (AList.update k v al) k = Some v"
  by (simp add: update_conv')

lemma map_of_delete_same: "map_of (AList.delete k al) k = None"
  by (simp add: delete_conv')

lemma key_present_idem:
  assumes "key_present k val wc = Inr (wc', ch)"
  shows "key_present k val wc' = Inr (wc', False)"
proof (cases wc)
  case (VDict d)
  with assms show ?thesis
    by (auto simp: key_present_def bind_err_def map_of_update_same update_conv'
             split: if_splits option.splits)
qed (use assms in \<open>auto simp: key_present_def bind_err_def split: if_splits\<close>)

lemma key_absent_idem:
  assumes "key_absent k val wc = Inr (wc', ch)"
  shows "key_absent k val wc' = Inr (wc', False)"
proof (cases wc)
  case (VDict d)
  with assms show ?thesis
    by (auto simp: key_absent_def bind_err_def map_of_delete_same
             split: if_splits option.splits)
qed (use assms in \<open>auto simp: key_absent_def bind_err_def split: if_splits\<close>)

lemma context_value_store:
  assumes "ctx = InSection s \<or> (ctx = TopLevel \<and> (\<exists>d. v = VDict d))"
  shows "context_value (context_store c ctx v) ctx = Inr v"
  using assms by (auto simp: map_of_update_same)

lemma context_store_twice:
  assumes "ctx = InSection s \<or> (ctx = TopLevel \<and> (\<exists>d. v = VDict d))"
  shows "context_store (context_store c ctx v) ctx v = context_store c ctx v"
  using assms by auto

lemma key_present_dict:
  "key_present k val wc = Inr (wc', ch) \<Longrightarrow> \<exists>d. wc' = VDict d"
  by (cases wc) (auto simp: key_present_def bind_err_def split: if_splits option.splits)

lemma key_absent_changed_dict:
  "key_absent k val wc = Inr (wc', True) \<Longrightarrow> \<exists>d. wc' = VDict d"
  by (cases wc) (auto simp: key_absent_def bind_err_def split: if_splits option.splits)

lemma key_absent_unchanged:
  "key_absent k val wc = Inr (wc', False) \<Longrightarrow> wc' = wc"
  by (cases wc) (auto simp: key_absent_def bind_err_def split: if_splits option.splits)

lemma context_value_NoContext_present:
  "key_present k val VNone = Inl TypeError"
  by (simp add: key_present_def bind_err_def)

lemma context_value_NoContext_absent:
  "key_absent k val VNone = Inl TypeError"
  by (simp add: key_absent_def bind_err_def)

lemma with_key_context:
  "with_key k val state l = Inr l' \<Longrightarrow> working_context l' = working_context l"
  by (auto simp: with_key_def bind_err_def split: if_splits sum.splits prod.splits)

lemma with_key_idem:
  assumes "with_key k val state l = Inr l'"
  shows "with_key k val state (l'\<lparr>changed := a, msg := m\<rparr>) = Inr (l'\<lparr>changed := a, msg := m\<rparr>)"
proof -
  consider (p) "state = ''present''" | (a) "state = ''absent''"
    | (o) "state \<noteq> ''present''" "state \<noteq> ''absent''" by blast
  then show ?thesis
  proof cases
    case p
    from assms p obtain wc wc' ch where
      cv: "context_value (content l) (working_context l) = Inr wc" and
      kp: "key_present k val wc = Inr (wc', ch)" and
      c': "content l' = context_store (content l) (working_context l) wc'" and
      w': "working_context l' = working_context l"
      by (auto simp: with_key_def bind_err_def split: if_splits sum.splits prod.splits)
    from kp obtain d where d: "wc' = VDict d" using key_present_dict by blast
    have nn: "working_context l \<noteq> NoContext"
      using cv kp by (auto simp: context_value_NoContext_present)
    then have shape: "(\<exists>s. working_context l = InSection s) \<or> (working_context l = TopLevel \<and> (\<exists>d. wc' = VDict d))"
      using d by (cases "working_context l") auto
    then have cv': "context_value (content l') (working_context l') = Inr wc'"
      unfolding c' w' using context_value_store by blast
    have st: "context_store (content l') (working_context l') wc' = content l'"
      unfolding c' w' using shape context_store_twice by blast
    show ?thesis
      using p cv' st key_present_idem[OF kp]
      by (simp add: with_key_def bind_err_def)
  next
    case a
    from assms a obtain wc wc' ch where
      cv: "context_value (content l) (working_context l) = Inr wc" and
      ka: "key_absent k val wc = Inr (wc', ch)" and
      c': "content l' = (if ch then context_store (content l) (working_context l) wc' else content l)" and
      w': "working_context l' = working_context l"
      by (auto simp: with_key_def bind_err_def split: if_splits sum.splits prod.splits)
    have nn: "working_context l \<noteq> NoContext"
      using cv ka by (auto simp: context_value_NoContext_absent)
    show ?thesis
    proof (cases ch)
      case True
      with ka have "key_absent k val wc = Inr (wc', True)" by simp
      then obtain d where d: "wc' = VDict d" using key_absent_changed_dict by blast
      from nn have shape: "(\<exists>s. working_context l = InSection s) \<or> (working_context l = TopLevel \<and> (\<exists>d. wc' = VDict d))"
        using d by (cases "working_context l") auto
      then have cv': "context_value (content l') (working_context l') = Inr wc'"
        using c' w' True context_value_store by auto
      show ?thesis
        using a cv' key_absent_idem[OF ka]
        by (simp add: with_key_def bind_err_def)
    next
      case False
      with ka have "key_absent k val wc = Inr (wc', False)" by simp
      then have "wc' = wc" using key_absent_unchanged by blast
      with False c' w' cv have cv': "context_value (content l') (working_context l') = Inr wc'"
        by simp
      show ?thesis
        using a cv' key_absent_idem[OF ka]
        by (simp add: with_key_def bind_err_def)
    qed
  next
    case o
    with assms show ?thesis by (simp add: with_key_def)
  qed
qed

lemma with_key_content:
  assumes "with_key k val state l = Inr l'" "working_context l = InSection s"
    "map_of (content l) s \<noteq> None"
  shows "map_of (content l') s \<noteq> None"
  using assms
  by (auto simp: with_key_def bind_err_def map_of_update_same
           split: if_splits sum.splits prod.splits option.splits)

lemma with_key_NoContext:
  assumes "with_key k val state l = Inr l'" "working_context l = NoContext"
  shows "state \<noteq> ''present'' \<and> state \<noteq> ''absent''"
  using assms
  by (auto simp: with_key_def bind_err_def context_value_NoContext_present
                 context_value_NoContext_absent split: if_splits)

lemma in_section_present:
  "in_section s key ''present'' l =
     (if map_of (content l) s = None then
        l\<lparr>content := AList.update s (VDict []) (content l),
          working_context := InSection s, changed := True,
          msg := msg l @ [''Added section '' @ s @ ''.'']\<rparr>
      else l\<lparr>working_context := InSection s\<rparr>)"
  by (simp add: in_section_def)

lemma in_section_absent:
  "in_section s key ''absent'' l =
     (if truthy key then
        (if map_of (content l) s \<noteq> None then l\<lparr>working_context := InSection s\<rparr> else l)
      else if map_of (content l) s \<noteq> None then
        l\<lparr>content := AList.delete s (content l), changed := True,
          msg := msg l @ [''Removed section '' @ s @ ''.'']\<rparr>
      else l)"
  by (simp add: in_section_def)

lemma in_section_other:
  "state \<noteq> ''present'' \<Longrightarrow> state \<noteq> ''absent'' \<Longrightarrow> in_section s key state l = l"
  by (simp add: in_section_def)

lemma apply_key_cases:
  "apply_key key val state l = (if truthy key then with_key (the key) val state l else Inr l)"
  by (cases key) (simp_all add: apply_key_def)

lemma find_section_again:
  assumes "apply_key key val state (find_section section key state (initial_locals c)) = Inr l"
  shows "find_section section key state (initial_locals (content l)) = l\<lparr>changed := False, msg := []\<rparr>"
proof (cases "truthy section")
  case False
  then have fs: "\<And>l. find_section section key state l = l\<lparr>working_context := TopLevel\<rparr>"
    by (cases "section") (simp_all add: find_section_def)
  from assms have "working_context l = TopLevel"
    unfolding fs apply_key_cases
    by (auto simp: initial_locals_def split: if_splits dest: with_key_context)
  then show ?thesis unfolding fs by (simp add: initial_locals_def)
next
  case True
  then obtain s where s: "section = Some s" "s \<noteq> []" by (cases "section") auto
  then have fs: "\<And>l. find_section section key state l = in_section s key state l"
    by (simp add: find_section_def)
  consider (p) "state = ''present''" | (a) "state = ''absent''"
    | (o) "state \<noteq> ''present''" "state \<noteq> ''absent''" by blast
  then show ?thesis
  proof cases
    case p
    let ?l0 = "in_section s key state (initial_locals c)"
    have wc0: "working_context ?l0 = InSection s" and inc: "map_of (content ?l0) s \<noteq> None"
      using p by (simp_all add: in_section_present initial_locals_def map_of_update_same)
    have "working_context l = InSection s \<and> map_of (content l) s \<noteq> None"
      using assms wc0 inc unfolding fs apply_key_cases
      by (auto split: if_splits dest: with_key_context with_key_content)
    then show ?thesis unfolding fs using p
      by (auto simp: in_section_present initial_locals_def)
  next
    case a
    show ?thesis
    proof (cases "truthy key")
      case True
      let ?l0 = "in_section s key state (initial_locals c)"
      from assms True have wk: "with_key (the key) val state ?l0 = Inr l"
        unfolding fs apply_key_cases by simp
      have "working_context ?l0 \<noteq> NoContext"
        using with_key_NoContext[OF wk] a by blast
      then have wc0: "working_context ?l0 = InSection s"
        using a True by (auto simp: in_section_absent initial_locals_def split: if_splits)
      have inc: "map_of (content ?l0) s \<noteq> None"
        using a True wc0 by (auto simp: in_section_absent initial_locals_def split: if_splits)
      have "working_context l = InSection s \<and> map_of (content l) s \<noteq> None"
        using with_key_context[OF wk] with_key_content[OF wk wc0 inc] wc0 by simp
      then show ?thesis unfolding fs using a True
        by (auto simp: in_section_absent initial_locals_def)
    next
      case False
      with assms have "l = in_section s key state (initial_locals c)"
        unfolding fs apply_key_cases by simp
      then show ?thesis unfolding fs using a False
        by (simp add: in_section_absent initial_locals_def map_of_delete_same)
    qed
  next
    case o
    from assms o have "working_context l = NoContext \<and> content l = c"
      unfolding fs apply_key_cases
      by (auto simp: in_section_other initial_locals_def with_key_def split: if_splits)
    then show ?thesis unfolding fs using o
      by (simp add: in_section_other initial_locals_def)
  qed
qed

lemma reconcile_idem:
  assumes "reconcile section key val state c = Inr l"
  shows "reconcile section key val state (content l) = Inr (l\<lparr>changed := False, msg := []\<rparr>)"
proof -
  let ?l0 = "find_section section key state (initial_locals c)"
  from assms have ak: "apply_key key val state ?l0 = Inr l" by (simp add: reconcile_def)
  have fs: "find_section section key state (initial_locals (content l)) = l\<lparr>changed := False, msg := []\<rparr>"
    using find_section_again[OF ak] .
  show ?thesis
  proof (cases "truthy key")
    case True
    with ak have "with_key (the key) val state ?l0 = Inr l" by (simp add: apply_key_cases)
    from with_key_idem[OF this] show ?thesis
      using True by (simp add: reconcile_def fs apply_key_cases)
  next
    case False
    then show ?thesis by (simp add: reconcile_def fs apply_key_cases)
  qed
qed

lemma key_absent_dict:
  "key_absent k val (VDict d) =
     (case map_of d k of
        None \<Rightarrow> Inr (VDict d, False)
      | Some cur \<Rightarrow>
          if \<not> truthy val then Inr (VDict (AList.delete k d), True)
          else if cur = of_param val then Inr (VDict (AList.delete k d), True)
          else Inr (VDict d, False))"
  by (auto simp: key_absent_def bind_err_def split: option.splits)

lemma key_present_dict_eq:
  "key_present k val (VDict d) =
     (let d1 = (if map_of d k = None then AList.update k VNone d else d) in
      if map_of d1 k \<noteq> Some (of_param val)
      then Inr (VDict (AList.update k (of_param val) d1), True)
      else Inr (VDict d1, False))"
  by (auto simp: key_present_def bind_err_def Let_def map_of_update_same split: option.splits)

lemma persist_unchanged:
  "\<not> (changed l \<and> \<not> check_mode e) \<Longrightarrow> persist e w path l = Inr w"
  by (auto simp: persist_def)


lemma with_key_absent_dict:
  assumes "context_value (content l) (working_context l) = Inr (VDict d)"
    and "map_of d k = Some cur"
  shows "with_key k val ''absent'' l =
     Inr (if truthy val \<and> cur \<noteq> of_param val then l
          else l\<lparr>content := context_store (content l) (working_context l)
                               (VDict (AList.delete k d)),
                 changed := True,
                 msg := msg l @ [''Removed key '' @ k @ ''.'']\<rparr>)"
  using assms by (simp add: with_key_def bind_err_def key_absent_dict)

lemma context_value_dict_store:
  assumes "context_value c ctx = Inr (VDict d)"
  shows "context_value (context_store c ctx (VDict d')) ctx = Inr (VDict d')"
  using assms by (cases ctx) (simp_all add: map_of_update_same)

lemma with_key_present_none_dict:
  assumes "context_value (content l) (working_context l) = Inr (VDict d)"
    and "map_of d k = None"
  shows "with_key k None ''present'' l =
     Inr (l\<lparr>content := context_store (content l) (working_context l)
                            (VDict (AList.update k VNone d))\<rparr>)"
  using assms by (simp add: with_key_def bind_err_def key_present_dict_eq map_of_update_same)

text \<open>
  Line 188 is the only place where \<^verbatim>\<open>do_toml\<close> reads \<^verbatim>\<open>module.check_mode\<close>: called in
  check mode, it returns what the real run returns and leaves the files alone.
\<close>

lemma do_toml_check_mode_result:
  "do_toml (e\<lparr>check_mode := False\<rparr>) w path section key val state create = Inr (w', r)
   \<Longrightarrow> do_toml (e\<lparr>check_mode := True\<rparr>) w path section key val state create = Inr (w, r)"
  by (auto simp: do_toml_def load_content_def persist_def bind_err_def
           split: sum.splits option.splits if_splits)

section \<open>The claims\<close>

text \<open>
  C1 (idempotence). When a request has been applied to a document and \<^verbatim>\<open>do_toml\<close>
  returned, applying the same request to the resulting document returns with
  \<^verbatim>\<open>changed = False\<close>, no message and the same document; \<^verbatim>\<open>do_toml\<close> on a file that
  holds the resulting document reports no change and leaves the file system as it
  was, so the bytes of the file are the same afterwards.
\<close>

theorem do_toml_idempotent:
  assumes "reconcile section key val state c = Inr l"
    and "load_content e w path = Inr (content l)"
  shows "reconcile section key val state (content l) = Inr (l\<lparr>changed := False, msg := []\<rparr>)
       \<and> do_toml e w path section key val state create =
           Inr (w, [(''changed'', VBool False),
                    (''origin_message'', VDict [(''before'', VStr []), (''after'', VStr [])]),
                    (''msg'', VStr [])])"
proof -
  have again: "reconcile section key val state (content l) = Inr (l\<lparr>changed := False, msg := []\<rparr>)"
    using reconcile_idem[OF assms(1)] .
  have "persist e w path (l\<lparr>changed := False, msg := []\<rparr>) = Inr w"
    by (simp add: persist_unchanged)
  with again assms(2) show ?thesis
    by (simp add: do_toml_def bind_err_def result_of_def)
qed

theorem do_toml_idempotent_witness:
  "reconcile (Some ''drinks'') (Some ''fav'') (Some ''lemonade'') ''present'' [] =
     Inr \<lparr>content = [(''drinks'', VDict [(''fav'', VStr ''lemonade'')])],
          working_context = InSection ''drinks'', changed = True,
          msg = [''Added section drinks.'', ''Added key fav=lemonade.'']\<rparr>
   \<and> load_content
        \<lparr>check_mode = False,
         toml_load = (\<lambda>t. if t = ''x'' then Some [(''drinks'', VDict [(''fav'', VStr ''lemonade'')])] else None),
         toml_dumps = (\<lambda>d. ''x''), mkstemp = Some ''tmp'', atomic_move_ok = True\<rparr>
        \<lparr>files = [''conf.toml'' \<mapsto> ''x''], trace = []\<rparr> ''conf.toml''
      = Inr [(''drinks'', VDict [(''fav'', VStr ''lemonade'')])]
   \<and> reconcile (Some ''drinks'') (Some ''fav'') (Some ''lemonade'') ''present''
        [(''drinks'', VDict [(''fav'', VStr ''lemonade'')])] =
     Inr \<lparr>content = [(''drinks'', VDict [(''fav'', VStr ''lemonade'')])],
          working_context = InSection ''drinks'', changed = False, msg = []\<rparr>
   \<and> do_toml
        \<lparr>check_mode = False,
         toml_load = (\<lambda>t. if t = ''x'' then Some [(''drinks'', VDict [(''fav'', VStr ''lemonade'')])] else None),
         toml_dumps = (\<lambda>d. ''x''), mkstemp = Some ''tmp'', atomic_move_ok = True\<rparr>
        \<lparr>files = [''conf.toml'' \<mapsto> ''x''], trace = []\<rparr> ''conf.toml''
        (Some ''drinks'') (Some ''fav'') (Some ''lemonade'') ''present'' True =
     Inr (\<lparr>files = [''conf.toml'' \<mapsto> ''x''], trace = []\<rparr>,
          [(''changed'', VBool False),
           (''origin_message'', VDict [(''before'', VStr []), (''after'', VStr [])]),
           (''msg'', VStr [])])"
proof -
  let ?l = "\<lparr>content = [(''drinks'', VDict [(''fav'', VStr ''lemonade'')])],
          working_context = InSection ''drinks'', changed = True,
          msg = [''Added section drinks.'', ''Added key fav=lemonade.'']\<rparr>"
  let ?e = "\<lparr>check_mode = False,
         toml_load = (\<lambda>t. if t = ''x'' then Some [(''drinks'', VDict [(''fav'', VStr ''lemonade'')])] else None),
         toml_dumps = (\<lambda>d. ''x''), mkstemp = Some ''tmp'', atomic_move_ok = True\<rparr>"
  let ?w = "\<lparr>files = [''conf.toml'' \<mapsto> ''x''], trace = []\<rparr>"
  have h1: "reconcile (Some ''drinks'') (Some ''fav'') (Some ''lemonade'') ''present'' [] = Inr ?l"
    by (simp add: reconcile_defs)
  have h2: "load_content ?e ?w ''conf.toml'' = Inr (content ?l)"
    by (simp add: load_content_def)
  from do_toml_idempotent[OF h1 h2, of True] h1 h2 show ?thesis by simp
qed

text \<open>
  C2 (semantic no-ops never raise). The claim fails on the code: with
  \<^verbatim>\<open>state = absent\<close>, a key, and a section that is not in the document, line 158
  leaves \<^verbatim>\<open>working_context\<close> at \<^verbatim>\<open>None\<close> and line 178 evaluates \<^verbatim>\<open>key in None\<close>,
  which raises \<^verbatim>\<open>TypeError\<close>. Here on the empty document and on a path that does not
  exist.
\<close>

theorem absent_key_in_missing_section_raises:
  "reconcile (Some ''drinks'') (Some ''fav'') None ''absent'' [] = Inl TypeError
   \<and> do_toml e (w\<lparr>files := (files w)(path := None)\<rparr>) path
         (Some ''drinks'') (Some ''fav'') None ''absent'' create = Inl TypeError"
  by (simp add: do_toml_def load_content_def reconcile_defs)

text \<open>
  C3 (check-mode equivalence). The claim fails on \<^verbatim>\<open>run_module\<close>: in check mode
  line 235 exits with the initial result, \<^verbatim>\<open>changed = False\<close> and an empty message,
  before \<^verbatim>\<open>do_toml\<close> is called, while the real run on the same input reports a change
  and two messages.
\<close>

theorem check_mode_run_skips_do_toml:
  "run_module (e\<lparr>check_mode := True\<rparr>) (w\<lparr>files := (files w)(path := None)\<rparr>)
     \<lparr>p_path = path, p_section = Some ''drinks'', p_key = Some ''fav'',
      p_value = Some ''lemonade'', p_state = ''present'', p_create = True\<rparr>
   = Inr (w\<lparr>files := (files w)(path := None)\<rparr>,
          [(''changed'', VBool False), (''original_message'', VStr []), (''message'', VStr [])])
   \<and> run_module (e\<lparr>check_mode := False, mkstemp := Some tmp, atomic_move_ok := True\<rparr>)
       (w\<lparr>files := (files w)(path := None)\<rparr>)
     \<lparr>p_path = path, p_section = Some ''drinks'', p_key = Some ''fav'',
      p_value = Some ''lemonade'', p_state = ''present'', p_create = True\<rparr>
   = Inr (w\<lparr>files := ((files w)(tmp := None))
                 (path \<mapsto> toml_dumps e [(''drinks'', VDict [(''fav'', VStr ''lemonade'')])]),
            trace := trace w @
              [Mkstemp tmp,
               Dump tmp (toml_dumps e [(''drinks'', VDict [(''fav'', VStr ''lemonade'')])]),
               AtomicMove tmp path]\<rparr>,
          [(''changed'', VBool True),
           (''origin_message'', VDict [(''before'', VStr []), (''after'', VStr [])]),
           (''msg'', VStr ''Added section drinks. Added key fav=lemonade.'')])"
  by (simp add: run_module_def initial_result_def do_toml_def load_content_def persist_def
        result_of_def reconcile_defs)

text \<open>
  C4 (shape of the result). The claim fails on the code: the dictionary of line 204,
  which \<^verbatim>\<open>run_module\<close> hands to \<^verbatim>\<open>exit_json\<close>, has the keys \<^verbatim>\<open>changed\<close>,
  \<^verbatim>\<open>origin_message\<close> and \<^verbatim>\<open>msg\<close>; it has no key \<^verbatim>\<open>message\<close> and no key
  \<^verbatim>\<open>original_message\<close>. The space-joined messages are under \<^verbatim>\<open>msg\<close>.
\<close>

theorem delivered_result_fields:
  "run_module (e\<lparr>check_mode := False, mkstemp := Some tmp, atomic_move_ok := True\<rparr>)
       (w\<lparr>files := (files w)(path := None)\<rparr>)
     \<lparr>p_path = path, p_section = Some ''drinks'', p_key = None,
      p_value = None, p_state = ''present'', p_create = True\<rparr>
   = Inr (w\<lparr>files := ((files w)(tmp := None))(path \<mapsto> toml_dumps e [(''drinks'', VDict [])]),
            trace := trace w @
              [Mkstemp tmp, Dump tmp (toml_dumps e [(''drinks'', VDict [])]),
               AtomicMove tmp path]\<rparr>,
          [(''changed'', VBool True),
           (''origin_message'', VDict [(''before'', VStr []), (''after'', VStr [])]),
           (''msg'', VStr ''Added section drinks.'')])
   \<and> map_of (result_of l) ''message'' = None
   \<and> map_of (result_of l) ''original_message'' = None
   \<and> map_of (result_of l) ''msg'' = Some (VStr (join_space (msg l)))"
  by (simp add: run_module_def do_toml_def load_content_def persist_def
        result_of_def reconcile_defs)

text \<open>
  C5 (value-guarded removal), as stated, fails where the supplied value is the empty
  string: line 179 takes it for no value, and the key is removed although its value
  differs from the supplied one.
\<close>

theorem empty_value_counterexample:
  "reconcile (Some ''drinks'') (Some ''fav'') (Some '''') ''absent''
     [(''drinks'', VDict [(''fav'', VStr ''lemonade'')])] =
   Inr \<lparr>content = [(''drinks'', VDict [])], working_context = InSection ''drinks'',
        changed = True, msg = [''Removed key fav.'']\<rparr>
   \<and> of_param (Some '''') \<noteq> VStr ''lemonade''"
  by (simp add: reconcile_defs)

text \<open>
  C5, amended. In a working context that is a table holding the key, a request with
  \<^verbatim>\<open>state = absent\<close> removes the key and records the change with the message
  "Removed key k." when no value was supplied, and when a value that is not empty was
  supplied and equals the key's value; when a value that is not empty was supplied
  and differs from the key's value, nothing changes: same document, same flag, no
  message.
\<close>

theorem absent_key_value_guard:
  assumes "k \<noteq> []"
    and "context_value (content l) (working_context l) = Inr (VDict d)"
    and "map_of d k = Some cur"
  shows "(val = None \<or> (\<exists>v. val = Some v \<and> v \<noteq> [] \<and> cur = VStr v) \<longrightarrow>
            (\<exists>l'. apply_key (Some k) val ''absent'' l = Inr l'
               \<and> context_value (content l') (working_context l') = Inr (VDict (AList.delete k d))
               \<and> map_of (AList.delete k d) k = None
               \<and> changed l' \<and> msg l' = msg l @ [''Removed key '' @ k @ ''.'']))
       \<and> ((\<exists>v. val = Some v \<and> v \<noteq> [] \<and> cur \<noteq> VStr v) \<longrightarrow>
            apply_key (Some k) val ''absent'' l = Inr l)"
proof -
  have ak: "apply_key (Some k) val ''absent'' l = with_key k val ''absent'' l"
    using assms(1) by (simp add: apply_key_def)
  have cv: "context_value (context_store (content l) (working_context l) (VDict (AList.delete k d)))
              (working_context l) = Inr (VDict (AList.delete k d))"
    using context_value_dict_store[OF assms(2)] .
  show ?thesis
    unfolding ak with_key_absent_dict[OF assms(2,3)]
    using cv by (auto simp: map_of_delete_same)
qed

theorem absent_key_value_guard_witness:
  "apply_key (Some ''fav'') None ''absent''
       \<lparr>content = [(''drinks'', VDict [(''fav'', VStr ''lemonade'')])],
        working_context = InSection ''drinks'', changed = False, msg = []\<rparr>
     = Inr \<lparr>content = [(''drinks'', VDict [])],
            working_context = InSection ''drinks'', changed = True,
            msg = [''Removed key fav.'']\<rparr>
   \<and> apply_key (Some ''fav'') (Some ''lemonade'') ''absent''
       \<lparr>content = [(''drinks'', VDict [(''fav'', VStr ''lemonade'')])],
        working_context = InSection ''drinks'', changed = False, msg = []\<rparr>
     = Inr \<lparr>content = [(''drinks'', VDict [])],
            working_context = InSection ''drinks'', changed = True,
            msg = [''Removed key fav.'']\<rparr>
   \<and> apply_key (Some ''fav'') (Some ''tea'') ''absent''
       \<lparr>content = [(''drinks'', VDict [(''fav'', VStr ''lemonade'')])],
        working_context = InSection ''drinks'', changed = False, msg = []\<rparr>
     = Inr \<lparr>content = [(''drinks'', VDict [(''fav'', VStr ''lemonade'')])],
            working_context = InSection ''drinks'', changed = False, msg = []\<rparr>"
proof -
  let ?l = "\<lparr>content = [(''drinks'', VDict [(''fav'', VStr ''lemonade'')])],
        working_context = InSection ''drinks'', changed = False, msg = []\<rparr>"
  have k: "''fav'' \<noteq> []" by simp
  have cv: "context_value (content ?l) (working_context ?l) = Inr (VDict [(''fav'', VStr ''lemonade'')])"
    by simp
  have m: "map_of [(''fav'', VStr ''lemonade'')] ''fav'' = Some (VStr ''lemonade'')" by simp
  note g = absent_key_value_guard[OF k cv m]
  from g[of "Some ''tea''"]
  have mismatch: "apply_key (Some ''fav'') (Some ''tea'') ''absent'' ?l = Inr ?l" by simp
  from g[of None] obtain l1 where
    l1: "apply_key (Some ''fav'') None ''absent'' ?l = Inr l1" "changed l1" by auto
  from g[of "Some ''lemonade''"] obtain l2 where
    l2: "apply_key (Some ''fav'') (Some ''lemonade'') ''absent'' ?l = Inr l2" "changed l2" by auto
  have e1: "apply_key (Some ''fav'') None ''absent'' ?l =
     Inr \<lparr>content = [(''drinks'', VDict [])],
            working_context = InSection ''drinks'', changed = True,
            msg = [''Removed key fav.'']\<rparr>"
    by (simp add: reconcile_defs)
  have e2: "apply_key (Some ''fav'') (Some ''lemonade'') ''absent'' ?l =
     Inr \<lparr>content = [(''drinks'', VDict [])],
            working_context = InSection ''drinks'', changed = True,
            msg = [''Removed key fav.'']\<rparr>"
    by (simp add: reconcile_defs)
  from mismatch e1 e2 show ?thesis by simp
qed

text \<open>
  C6 (persistence iff a change occurred). When \<^verbatim>\<open>do_toml\<close> returns, it has created
  the temporary file, written the serialized document to it and moved it over the
  target exactly when \<^verbatim>\<open>changed\<close> is true and the run is not in check mode; otherwise
  the file system is as it was.
\<close>

theorem persist_iff_changed:
  assumes "do_toml e w path section key val state create = Inr (w', r)"
  shows "\<exists>c l. load_content e w path = Inr c
           \<and> reconcile section key val state c = Inr l
           \<and> r = result_of l
           \<and> map_of r ''changed'' = Some (VBool (changed l))
           \<and> (if changed l \<and> \<not> check_mode e
               then \<exists>tmp. mkstemp e = Some tmp
                      \<and> w' = w\<lparr>files := ((files w)(tmp := None))
                                          (path \<mapsto> toml_dumps e (content l)),
                                 trace := trace w @
                                   [Mkstemp tmp, Dump tmp (toml_dumps e (content l)),
                                    AtomicMove tmp path]\<rparr>
               else w' = w)
           \<and> ((trace w' \<noteq> trace w) = (changed l \<and> \<not> check_mode e))"
  using assms
  by (auto simp: do_toml_def bind_err_def persist_def result_of_def
           split: sum.splits option.splits if_splits)

theorem persist_iff_changed_witness:
  "do_toml
        \<lparr>check_mode = False, toml_load = map_of [], toml_dumps = concat \<circ> map fst,
         mkstemp = Some ''tmp'', atomic_move_ok = True\<rparr>
        \<lparr>files = map_of [], trace = []\<rparr> ''conf.toml''
        (Some ''drinks'') (Some ''fav'') (Some ''lemonade'') ''present'' True
     = Inr (\<lparr>files = ((map_of [])(''tmp'' := None))(''conf.toml'' \<mapsto> ''drinks''),
             trace = [Mkstemp ''tmp'', Dump ''tmp'' ''drinks'', AtomicMove ''tmp'' ''conf.toml'']\<rparr>,
            [(''changed'', VBool True),
             (''origin_message'', VDict [(''before'', VStr []), (''after'', VStr [])]),
             (''msg'', VStr ''Added section drinks. Added key fav=lemonade.'')])
   \<and> do_toml
        \<lparr>check_mode = False, toml_load = map_of [], toml_dumps = concat \<circ> map fst,
         mkstemp = Some ''tmp'', atomic_move_ok = True\<rparr>
        \<lparr>files = map_of [], trace = []\<rparr> ''conf.toml''
        (Some ''drinks'') None None ''absent'' True
     = Inr (\<lparr>files = map_of [], trace = []\<rparr>,
            [(''changed'', VBool False),
             (''origin_message'', VDict [(''before'', VStr []), (''after'', VStr [])]),
             (''msg'', VStr [])])"
proof -
  let ?e = "\<lparr>check_mode = False, toml_load = map_of [], toml_dumps = concat \<circ> map fst,
         mkstemp = Some ''tmp'', atomic_move_ok = True\<rparr>"
  let ?w = "\<lparr>files = map_of [], trace = []\<rparr> :: world"
  let ?w1 = "\<lparr>files = ((map_of [])(''tmp'' := None))(''conf.toml'' \<mapsto> ''drinks''),
             trace = [Mkstemp ''tmp'', Dump ''tmp'' ''drinks'', AtomicMove ''tmp'' ''conf.toml'']\<rparr>"
  let ?r1 = "[(''changed'', VBool True),
             (''origin_message'', VDict [(''before'', VStr []), (''after'', VStr [])]),
             (''msg'', VStr ''Added section drinks. Added key fav=lemonade.'')]"
  let ?r2 = "[(''changed'', VBool False),
             (''origin_message'', VDict [(''before'', VStr []), (''after'', VStr [])]),
             (''msg'', VStr [])]"
  have h1: "do_toml ?e ?w ''conf.toml'' (Some ''drinks'') (Some ''fav'') (Some ''lemonade'')
              ''present'' True = Inr (?w1, ?r1)"
    by (simp add: do_toml_def load_content_def persist_def result_of_def reconcile_defs)
  have h2: "do_toml ?e ?w ''conf.toml'' (Some ''drinks'') None None ''absent'' True = Inr (?w, ?r2)"
    by (simp add: do_toml_def load_content_def persist_def result_of_def reconcile_defs)
  from persist_iff_changed[OF h1] obtain l1 where
    "?r1 = result_of l1" "(trace ?w1 \<noteq> trace ?w) = (changed l1 \<and> \<not> check_mode ?e)" by blast
  moreover from persist_iff_changed[OF h2] obtain l2 where
    "?r2 = result_of l2" "(trace ?w \<noteq> trace ?w) = (changed l2 \<and> \<not> check_mode ?e)" by blast
  ultimately show ?thesis using h1 h2 by simp
qed

text \<open>
  C7 (scenario 1). From the empty document the request section = drinks, key = fav,
  value = lemonade, state = present gives \<^verbatim>\<open>changed = True\<close>, the messages
  "Added section drinks." and "Added key fav=lemonade.", and a document whose section
  drinks maps fav to "lemonade"; \<^verbatim>\<open>do_toml\<close> on a path that does not exist writes that
  document.
\<close>

theorem scenario_section_and_key_created:
  "reconcile (Some ''drinks'') (Some ''fav'') (Some ''lemonade'') ''present'' [] =
     Inr \<lparr>content = [(''drinks'', VDict [(''fav'', VStr ''lemonade'')])],
          working_context = InSection ''drinks'', changed = True,
          msg = [''Added section drinks.'', ''Added key fav=lemonade.'']\<rparr>
   \<and> do_toml (e\<lparr>check_mode := False, mkstemp := Some tmp, atomic_move_ok := True\<rparr>)
       (w\<lparr>files := (files w)(path := None)\<rparr>) path
       (Some ''drinks'') (Some ''fav'') (Some ''lemonade'') ''present'' create =
     Inr (w\<lparr>files := ((files w)(tmp := None))
                 (path \<mapsto> toml_dumps e [(''drinks'', VDict [(''fav'', VStr ''lemonade'')])]),
            trace := trace w @
              [Mkstemp tmp,
               Dump tmp (toml_dumps e [(''drinks'', VDict [(''fav'', VStr ''lemonade'')])]),
               AtomicMove tmp path]\<rparr>,
          [(''changed'', VBool True),
           (''origin_message'', VDict [(''before'', VStr []), (''after'', VStr [])]),
           (''msg'', VStr ''Added section drinks. Added key fav=lemonade.'')])"
  by (simp add: do_toml_def load_content_def persist_def result_of_def reconcile_defs)

text \<open>
  C8 (value omitted, state present), as stated, fails where the section is created
  by the same call: the key is absent from the new working context and is inserted
  with \<^verbatim>\<open>None\<close>, but \<^verbatim>\<open>changed\<close> is true, the message of the section is emitted, and
  the document holding the inserted key is the one handed to \<^verbatim>\<open>toml.dump\<close>.
\<close>

theorem none_value_counterexample:
  "reconcile (Some ''drinks'') (Some ''fav'') None ''present'' [] =
     Inr \<lparr>content = [(''drinks'', VDict [(''fav'', VNone)])],
          working_context = InSection ''drinks'', changed = True,
          msg = [''Added section drinks.'']\<rparr>
   \<and> do_toml
        \<lparr>check_mode = False, toml_load = map_of [], toml_dumps = concat \<circ> map fst,
         mkstemp = Some ''tmp'', atomic_move_ok = True\<rparr>
        \<lparr>files = map_of [], trace = []\<rparr> ''conf.toml''
        (Some ''drinks'') (Some ''fav'') None ''present'' True =
     Inr (\<lparr>files = ((map_of [])(''tmp'' := None))(''conf.toml'' \<mapsto> ''drinks''),
           trace = [Mkstemp ''tmp'', Dump ''tmp'' ''drinks'', AtomicMove ''tmp'' ''conf.toml'']\<rparr>,
          [(''changed'', VBool True),
           (''origin_message'', VDict [(''before'', VStr []), (''after'', VStr [])]),
           (''msg'', VStr ''Added section drinks.'')])"
  by (simp add: do_toml_def load_content_def persist_def result_of_def reconcile_defs)

text \<open>
  C8, amended. With \<^verbatim>\<open>state = present\<close>, a key and no value, when lines 146-165
  recorded no change (no section was named, or the section was already in the
  document) and the working context is a table without the key, the key is inserted
  with the value \<^verbatim>\<open>None\<close> in the document in memory, \<^verbatim>\<open>changed\<close> is false, no
  message is emitted and \<^verbatim>\<open>do_toml\<close> writes nothing.
\<close>

theorem none_value_inserted_unreported:
  assumes "k \<noteq> []"
    and "find_section section (Some k) ''present'' (initial_locals c) = l0"
    and "\<not> changed l0"
    and "context_value (content l0) (working_context l0) = Inr (VDict d)"
    and "map_of d k = None"
    and "load_content e w path = Inr c"
  shows "\<exists>l. reconcile section (Some k) None ''present'' c = Inr l
           \<and> context_value (content l) (working_context l) = Inr (VDict (AList.update k VNone d))
           \<and> map_of (AList.update k VNone d) k = Some VNone
           \<and> changed l = False \<and> msg l = []
           \<and> do_toml e w path section (Some k) None ''present'' create =
               Inr (w, [(''changed'', VBool False),
                        (''origin_message'', VDict [(''before'', VStr []), (''after'', VStr [])]),
                        (''msg'', VStr [])])"
proof -
  let ?l = "l0\<lparr>content := context_store (content l0) (working_context l0)
                            (VDict (AList.update k VNone d))\<rparr>"
  have m0: "msg l0 = []"
    using assms(2,3)
    by (cases "section")
       (auto simp: find_section_def in_section_def initial_locals_def Let_def split: if_splits)
  have r: "reconcile section (Some k) None ''present'' c = Inr ?l"
    using assms(1,2) with_key_present_none_dict[OF assms(4,5)]
    by (simp add: reconcile_def apply_key_def)
  have cv: "context_value (content ?l) (working_context ?l) = Inr (VDict (AList.update k VNone d))"
    using context_value_dict_store[OF assms(4)] by simp
  have p: "persist e w path ?l = Inr w"
    using assms(3) by (simp add: persist_unchanged)
  have d: "do_toml e w path section (Some k) None ''present'' create =
             Inr (w, [(''changed'', VBool False),
                      (''origin_message'', VDict [(''before'', VStr []), (''after'', VStr [])]),
                      (''msg'', VStr [])])"
    using assms(3,6) r p m0 by (simp add: do_toml_def bind_err_def result_of_def)
  show ?thesis
    using r cv d m0 assms(3) by (simp add: map_of_update_same)
qed

theorem none_value_inserted_unreported_witness:
  "find_section (Some ''drinks'') (Some ''fav'') ''present'' (initial_locals [(''drinks'', VDict [])])
     = \<lparr>content = [(''drinks'', VDict [])], working_context = InSection ''drinks'',
        changed = False, msg = []\<rparr>
   \<and> reconcile (Some ''drinks'') (Some ''fav'') None ''present'' [(''drinks'', VDict [])]
     = Inr \<lparr>content = [(''drinks'', VDict [(''fav'', VNone)])],
            working_context = InSection ''drinks'', changed = False, msg = []\<rparr>
   \<and> do_toml
        \<lparr>check_mode = False, toml_load = map_of [(''[drinks]'', [(''drinks'', VDict [])])],
         toml_dumps = concat \<circ> map fst, mkstemp = Some ''tmp'', atomic_move_ok = True\<rparr>
        \<lparr>files = map_of [(''conf.toml'', ''[drinks]'')], trace = []\<rparr> ''conf.toml''
        (Some ''drinks'') (Some ''fav'') None ''present'' True
     = Inr (\<lparr>files = map_of [(''conf.toml'', ''[drinks]'')], trace = []\<rparr>,
            [(''changed'', VBool False),
             (''origin_message'', VDict [(''before'', VStr []), (''after'', VStr [])]),
             (''msg'', VStr [])])"
proof -
  let ?c = "[(''drinks'', VDict [])]"
  let ?l0 = "\<lparr>content = ?c, working_context = InSection ''drinks'',
        changed = False, msg = []\<rparr>"
  let ?e = "\<lparr>check_mode = False, toml_load = map_of [(''[drinks]'', ?c)],
         toml_dumps = concat \<circ> map fst, mkstemp = Some ''tmp'', atomic_move_ok = True\<rparr>"
  let ?w = "\<lparr>files = map_of [(''conf.toml'', ''[drinks]'')], trace = []\<rparr>"
  have k: "''fav'' \<noteq> []" by simp
  have fs: "find_section (Some ''drinks'') (Some ''fav'') ''present'' (initial_locals ?c) = ?l0"
    by (simp add: find_section_def in_section_def initial_locals_def)
  have nc: "\<not> changed ?l0" by simp
  have cv: "context_value (content ?l0) (working_context ?l0) = Inr (VDict [])" by simp
  have m: "map_of ([] :: pydict) ''fav'' = None" by simp
  have ld: "load_content ?e ?w ''conf.toml'' = Inr ?c" by (simp add: load_content_def)
  from none_value_inserted_unreported[OF k fs nc cv m ld, of True]
  obtain l where
    r: "reconcile (Some ''drinks'') (Some ''fav'') None ''present'' ?c = Inr l" and
    d: "do_toml ?e ?w ''conf.toml'' (Some ''drinks'') (Some ''fav'') None ''present'' True =
          Inr (?w, [(''changed'', VBool False),
             (''origin_message'', VDict [(''before'', VStr []), (''after'', VStr [])]),
             (''msg'', VStr [])])"
    by blast
  have r': "reconcile (Some ''drinks'') (Some ''fav'') None ''present'' ?c
     = Inr \<lparr>content = [(''drinks'', VDict [(''fav'', VNone)])],
            working_context = InSection ''drinks'', changed = False, msg = []\<rparr>"
    by (simp add: reconcile_defs)
  from fs r' d show ?thesis by simp
qed

text \<open>
  C9 (empty value, state absent). In a working context that is a table holding the
  key, a request with \<^verbatim>\<open>state = absent\<close> and the empty string as value removes the
  key whatever its value is; with \<^verbatim>\<open>state = absent\<close> the empty string and an omitted
  value give the same result on every input.
\<close>

theorem empty_value_removes_unconditionally:
  assumes "k \<noteq> []"
    and "context_value (content l) (working_context l) = Inr (VDict d)"
    and "map_of d k = Some cur"
  shows "(\<exists>l'. apply_key (Some k) (Some []) ''absent'' l = Inr l'
           \<and> context_value (content l') (working_context l') = Inr (VDict (AList.delete k d))
           \<and> map_of (AList.delete k d) k = None
           \<and> changed l' \<and> msg l' = msg l @ [''Removed key '' @ k @ ''.''])
       \<and> apply_key key (Some []) ''absent'' l1 = apply_key key None ''absent'' l1
       \<and> do_toml e w path section key (Some []) ''absent'' create =
           do_toml e w path section key None ''absent'' create"
proof -
  have ak: "apply_key (Some k) (Some []) ''absent'' l = with_key k (Some []) ''absent'' l"
    using assms(1) by (simp add: apply_key_def)
  have cv: "context_value (context_store (content l) (working_context l) (VDict (AList.delete k d)))
              (working_context l) = Inr (VDict (AList.delete k d))"
    using context_value_dict_store[OF assms(2)] .
  have ka: "\<And>k wc. key_absent k (Some []) wc = key_absent k None wc"
    by (simp add: key_absent_def)
  have eq: "\<And>l. apply_key key (Some []) ''absent'' l = apply_key key None ''absent'' l"
    by (simp add: apply_key_def with_key_def ka split: option.splits)
  have "reconcile section key (Some []) ''absent'' = reconcile section key None ''absent''"
    by (rule ext) (simp add: reconcile_def eq)
  then have dt: "do_toml e w path section key (Some []) ''absent'' create =
           do_toml e w path section key None ''absent'' create"
    by (simp add: do_toml_def)
  show ?thesis
    unfolding ak with_key_absent_dict[OF assms(2,3)]
    using cv eq dt by (simp add: map_of_delete_same ak with_key_absent_dict[OF assms(2,3)])
qed

theorem empty_value_removes_unconditionally_witness:
  "apply_key (Some ''fav'') (Some '''') ''absent''
       \<lparr>content = [(''drinks'', VDict [(''fav'', VStr ''lemonade'')])],
        working_context = InSection ''drinks'', changed = False, msg = []\<rparr>
     = Inr \<lparr>content = [(''drinks'', VDict [])],
            working_context = InSection ''drinks'', changed = True,
            msg = [''Removed key fav.'']\<rparr>
   \<and> apply_key (Some ''fav'') None ''absent''
       \<lparr>content = [(''drinks'', VDict [(''fav'', VStr ''lemonade'')])],
        working_context = InSection ''drinks'', changed = False, msg = []\<rparr>
     = Inr \<lparr>content = [(''drinks'', VDict [])],
            working_context = InSection ''drinks'', changed = True,
            msg = [''Removed key fav.'']\<rparr>"
proof -
  let ?l = "\<lparr>content = [(''drinks'', VDict [(''fav'', VStr ''lemonade'')])],
        working_context = InSection ''drinks'', changed = False, msg = []\<rparr>"
  let ?l' = "\<lparr>content = [(''drinks'', VDict [])],
            working_context = InSection ''drinks'', changed = True,
            msg = [''Removed key fav.'']\<rparr>"
  have k: "''fav'' \<noteq> []" by simp
  have cv: "context_value (content ?l) (working_context ?l) = Inr (VDict [(''fav'', VStr ''lemonade'')])"
    by simp
  have m: "map_of [(''fav'', VStr ''lemonade'')] ''fav'' = Some (VStr ''lemonade'')" by simp
  from empty_value_removes_unconditionally[OF k cv m, of "Some ''fav''" ?l]
  have eq: "apply_key (Some ''fav'') (Some '''') ''absent'' ?l = apply_key (Some ''fav'') None ''absent'' ?l"
    by blast
  have e1: "apply_key (Some ''fav'') None ''absent'' ?l = Inr ?l'"
    by (simp add: reconcile_defs)
  from eq e1 show ?thesis by simp
qed

text \<open>
  C10 (\<^verbatim>\<open>create\<close> is never consulted). Two calls of \<^verbatim>\<open>do_toml\<close> that differ only in
  \<^verbatim>\<open>create\<close> give the same result, and a path that does not exist always loads as the
  empty document.
\<close>

theorem create_never_consulted:
  "do_toml e w path section key val state create = do_toml e w path section key val state create'
   \<and> load_content e (w\<lparr>files := (files w)(path := None)\<rparr>) path = Inr []"
  by (simp add: do_toml_def load_content_def)

end
